theory Spec2Isabelle
  imports Main "HOL-Library.Sublist" "HOL-Library.AList"
begin

section \<open>The library analyzer (scripts/python/framework/analyzer.py)\<close>

text \<open>
  The analyzer imports a library, walks its package tree and records, for every callable
  and every class it finds, a name, an argument list, an optional-argument count and the
  documentation text. The live Python objects it inspects are modelled by the values the
  source reads from them: what \<^verbatim>\<open>importlib.import_module\<close>, \<^verbatim>\<open>inspect.signature\<close>,
  \<^verbatim>\<open>inspect.getdoc\<close>, \<^verbatim>\<open>inspect.getmembers\<close> and the attribute reads return or raise.
  Identifiers of the source that start with an underscore lose it (\<open>_parse_sig\<close> is
  \<open>parse_sig\<close>). The diagnostic prints are guarded by \<^verbatim>\<open>VERBOSE = False\<close> and are left out.
\<close>

subsection \<open>Exceptions\<close>

text \<open>
  The exceptions a module body or an introspection call raises: \<^verbatim>\<open>SystemExit\<close> (a call of
  \<^verbatim>\<open>sys.exit()\<close>), subclasses of \<^verbatim>\<open>Exception\<close>, of which the source tells
  \<^verbatim>\<open>TypeError\<close> and \<^verbatim>\<open>ValueError\<close> apart, and \<open>OtherBaseException\<close>, an exception that
  derives from \<^verbatim>\<open>BaseException\<close> and is neither of them: \<^verbatim>\<open>KeyboardInterrupt\<close>,
  \<^verbatim>\<open>GeneratorExit\<close>, or a class of a library's own. A raising call is \<open>Inl\<close> of the
  exception.
\<close>

datatype exc =
  SystemExit | TypeError | ValueError | AttributeError | OtherException | OtherBaseException

text \<open>
  \<^verbatim>\<open>except Exception\<close> catches the subclasses of \<^verbatim>\<open>Exception\<close>, and neither
  \<^verbatim>\<open>SystemExit\<close> nor another \<^verbatim>\<open>BaseException\<close>.
\<close>

fun is_Exception :: "exc \<Rightarrow> bool" where
  "is_Exception SystemExit = False"
| "is_Exception TypeError = True"
| "is_Exception ValueError = True"
| "is_Exception AttributeError = True"
| "is_Exception OtherException = True"
| "is_Exception OtherBaseException = False"

subsection \<open>Strings\<close>

text \<open>
  A Python \<^verbatim>\<open>str\<close> is a list of code points; the model has the code points below 256.
  \<open>isspace\<close> is the whitespace of \<^verbatim>\<open>str.strip()\<close> and of the regular expression
  \<^verbatim>\<open>\s\<close> in that range: U+0009 to U+000D, U+001C to U+0020, U+0085 and U+00A0.
\<close>

definition isspace :: "char \<Rightarrow> bool" where
  "isspace c =
     (let n = (of_char c :: nat)
      in (9 \<le> n \<and> n \<le> 13) \<or> (28 \<le> n \<and> n \<le> 32) \<or> n = 133 \<or> n = 160)"

text \<open>\<^verbatim>\<open>s.strip(chars)\<close>: drop the characters of the set from both ends.\<close>

definition strip_chars :: "(char \<Rightarrow> bool) \<Rightarrow> string \<Rightarrow> string" where
  "strip_chars P s = rev (dropWhile P (rev (dropWhile P s)))"

definition strip :: "string \<Rightarrow> string" where
  "strip s = strip_chars isspace s"

definition is_paren :: "char \<Rightarrow> bool" where
  "is_paren c = (c = CHR ''('' \<or> c = CHR '')'')"

definition strip_parens :: "string \<Rightarrow> string" where
  "strip_parens s = strip_chars is_paren s"

text \<open>\<^verbatim>\<open>s.split(sep)\<close> for a separator of one character: never the empty list.\<close>

fun split :: "char \<Rightarrow> string \<Rightarrow> string list" where
  "split sep [] = [[]]"
| "split sep (c # cs) =
     (if c = sep then [] # split sep cs
      else (case split sep cs of
              [] \<Rightarrow> [[c]]
            | p # ps \<Rightarrow> (c # p) # ps))"

text \<open>\<^verbatim>\<open>s.split(sep)[0]\<close>.\<close>

definition first_piece :: "char \<Rightarrow> string \<Rightarrow> string" where
  "first_piece sep s = (case split sep s of [] \<Rightarrow> [] | p # ps \<Rightarrow> p)"

definition startswith :: "string \<Rightarrow> string \<Rightarrow> bool" where
  "startswith s p = prefix p s"

definition endswith :: "string \<Rightarrow> string \<Rightarrow> bool" where
  "endswith s p = suffix p s"

text \<open>\<^verbatim>\<open>x or ""\<close> on a value that is a string or \<^verbatim>\<open>None\<close>.\<close>

fun or_empty :: "string option \<Rightarrow> string" where
  "or_empty None = []"
| "or_empty (Some s) = s"

text \<open>\<^verbatim>\<open>sum(...)\<close> over a generator of booleans: the number of true ones.\<close>

definition py_sum :: "bool list \<Rightarrow> nat" where
  "py_sum bs = sum_list (map of_bool bs)"

subsection \<open>Inspected objects\<close>

datatype param_kind =
  POSITIONAL_ONLY | POSITIONAL_OR_KEYWORD | VAR_POSITIONAL | KEYWORD_ONLY | VAR_KEYWORD

text \<open>
  An \<^verbatim>\<open>inspect.Parameter\<close>: \<open>p_has_default\<close> is
  \<^verbatim>\<open>p.default is not inspect.Parameter.empty\<close>.
\<close>

record parameter =
  p_name :: string
  p_has_default :: bool
  p_kind :: param_kind

text \<open>
  A plain function found in a class by \<^verbatim>\<open>inspect.getmembers(cls, inspect.isfunction)\<close>:
  the outcomes of \<^verbatim>\<open>inspect.signature\<close> and \<^verbatim>\<open>inspect.getdoc\<close> on it.
\<close>

record pyfunction =
  f_signature :: "exc + parameter list"
  f_getdoc :: "exc + string option"

text \<open>
  A member of a module. \<open>o_kind\<close> decides \<^verbatim>\<open>callable(obj)\<close> and
  \<^verbatim>\<open>inspect.isclass(obj)\<close>: a class is callable. \<open>o_module\<close> and \<open>o_name\<close> are the
  attributes \<^verbatim>\<open>__module__\<close> and \<^verbatim>\<open>__name__\<close>, \<open>None\<close> when the object has none
  (for \<^verbatim>\<open>__module__\<close> also when it is \<^verbatim>\<open>None\<close>); \<open>o_text_signature\<close> is
  \<^verbatim>\<open>getattr(obj, "__text_signature__", None)\<close>; \<open>o_functions\<close> is
  \<^verbatim>\<open>inspect.getmembers(obj, inspect.isfunction)\<close>.
\<close>

datatype obj_kind = ClassObj | CallableObj | DataObj

record pyobj =
  o_kind :: obj_kind
  o_module :: "string option"
  o_name :: "string option"
  o_repr :: string
  o_signature :: "exc + parameter list"
  o_getdoc :: "exc + string option"
  o_text_signature :: "string option"
  o_functions :: "(string \<times> pyfunction) list"

text \<open>
  An entry that \<^verbatim>\<open>pkgutil.iter_modules\<close> lists in a package directory: its name, whether
  it is a package, and for a package the entries of its own \<^verbatim>\<open>__path__\<close>.
\<close>

datatype pkg_entry = Entry string bool "pkg_entry list"

text \<open>
  A loaded module: \<^verbatim>\<open>__name__\<close>, \<^verbatim>\<open>__path__\<close> (\<open>None\<close> when the module is no package)
  and \<^verbatim>\<open>inspect.getmembers(mod)\<close>.
\<close>

record pymodule =
  m_name :: string
  m_path :: "pkg_entry list option"
  m_members :: "(string \<times> pyobj) list"

text \<open>\<^verbatim>\<open>importlib.import_module\<close>: the module, or the exception its import raises.\<close>

type_synonym importer = "string \<Rightarrow> exc + pymodule"

subsection \<open>safe\_import\<close>

definition safe_import :: "importer \<Rightarrow> string \<Rightarrow> exc + pymodule option" where
  "safe_import imp name =
     (case imp name of
        Inr m \<Rightarrow> Inr (Some m)
      | Inl e \<Rightarrow>
          if e = SystemExit then Inr None
          else if is_Exception e then Inr None
          else Inl e)"

subsection \<open>Signature and docstring extraction\<close>

definition is_callable :: "pyobj \<Rightarrow> bool" where
  "is_callable obj = (o_kind obj = ClassObj \<or> o_kind obj = CallableObj)"

definition isclass :: "pyobj \<Rightarrow> bool" where
  "isclass obj = (o_kind obj = ClassObj)"

text \<open>The loop of \<open>parse_text_signature\<close>, with the list \<open>args\<close> it appends to.\<close>

fun parse_text_loop :: "string list \<Rightarrow> string list \<Rightarrow> string list" where
  "parse_text_loop [] args = args"
| "parse_text_loop (a # rest) args =
     (let arg = strip a
      in if arg \<in> {''/'', ''*''} \<or> arg = [] then parse_text_loop rest args
         else parse_text_loop rest (args @ [strip (first_piece CHR ''='' arg)]))"

definition parse_text_signature :: "string \<Rightarrow> string list" where
  "parse_text_signature sig =
     (if sig = [] then []
      else parse_text_loop (split CHR '','' (strip_parens (strip sig))) [])"

definition count_optional :: "parameter \<Rightarrow> bool" where
  "count_optional p =
     (p_has_default p \<or> p_kind p \<in> {VAR_POSITIONAL, VAR_KEYWORD})"

text \<open>
  \<open>parse_sig\<close> on the outcome of \<^verbatim>\<open>inspect.signature(obj)\<close>: a \<^verbatim>\<open>TypeError\<close> or
  \<^verbatim>\<open>ValueError\<close> gives the empty result, any other exception propagates.
\<close>

definition parse_sig :: "exc + parameter list \<Rightarrow> exc + string list \<times> nat" where
  "parse_sig sg =
     (case sg of
        Inr ps \<Rightarrow> Inr (map p_name ps, py_sum (map count_optional ps))
      | Inl e \<Rightarrow> if e = TypeError \<or> e = ValueError then Inr ([], 0) else Inl e)"

text \<open>
  \<^verbatim>\<open>re.match(r"^\s*[a-zA-Z_][a-zA-Z0-9_]*\((.*?)\)", doc)\<close>, giving \<^verbatim>\<open>m.group(1)\<close>.
  Every step of the pattern has one way to match: \<^verbatim>\<open>\s*\<close> must take all the leading
  whitespace (the next character has to start a name), the name must take every name
  character (the next has to be the opening parenthesis), and the lazy \<^verbatim>\<open>.*?\<close>, which
  does not cross a newline, stops at the first closing parenthesis.
\<close>

definition is_name_start :: "char \<Rightarrow> bool" where
  "is_name_start c =
     (let n = (of_char c :: nat)
      in (97 \<le> n \<and> n \<le> 122) \<or> (65 \<le> n \<and> n \<le> 90) \<or> n = 95)"

definition is_name_char :: "char \<Rightarrow> bool" where
  "is_name_char c =
     (let n = (of_char c :: nat)
      in (97 \<le> n \<and> n \<le> 122) \<or> (65 \<le> n \<and> n \<le> 90) \<or> (48 \<le> n \<and> n \<le> 57) \<or> n = 95)"

definition in_group :: "char \<Rightarrow> bool" where
  "in_group c = (c \<noteq> CHR '')'' \<and> c \<noteq> CHR 0x0A)"

definition re_match_call :: "string \<Rightarrow> string option" where
  "re_match_call doc =
     (case dropWhile isspace doc of
        [] \<Rightarrow> None
      | c # cs \<Rightarrow>
          if is_name_start c then
            (case dropWhile is_name_char cs of
               [] \<Rightarrow> None
             | d # ds \<Rightarrow>
                 if d = CHR ''('' then
                   (case dropWhile in_group ds of
                      [] \<Rightarrow> None
                    | e # es \<Rightarrow> if e = CHR '')'' then Some (takeWhile in_group ds) else None)
                 else None)
          else None)"

text \<open>
  A function record. \<open>fr_name\<close> is \<^verbatim>\<open>getattr(func, "__name__", repr(func))\<close>.
\<close>

record function_record =
  fr_name :: string
  fr_args :: "string list"
  fr_optionalCount :: nat
  fr_doc :: string
  fr_module :: string

definition getattr_name :: "pyobj \<Rightarrow> string" where
  "getattr_name obj = (case o_name obj of Some n \<Rightarrow> n | None \<Rightarrow> o_repr obj)"

text \<open>
  The \<^verbatim>\<open>try\<close> block of \<open>get_function_metadata\<close>: \<open>parse_sig\<close>, then
  \<^verbatim>\<open>inspect.getdoc(func) or ""\<close>; \<^verbatim>\<open>except Exception\<close> resets all three values.
\<close>

definition sig_and_doc :: "pyobj \<Rightarrow> exc + string list \<times> nat \<times> string" where
  "sig_and_doc func =
     (case (case parse_sig (o_signature func) of
              Inl e \<Rightarrow> Inl e
            | Inr (args, opt) \<Rightarrow>
                (case o_getdoc func of
                   Inl e \<Rightarrow> Inl e
                 | Inr d \<Rightarrow> Inr (args, opt, or_empty d))) of
        Inl e \<Rightarrow> if is_Exception e then Inr ([], 0, []) else Inl e
      | Inr v \<Rightarrow> Inr v)"

text \<open>
  The list \<open>pieces\<close> of the docstring fallback:
  \<^verbatim>\<open>[p.strip() for p in sig_part.split(",") if p.strip() not in {"/", "*"}]\<close>.
\<close>

definition pieces_of :: "string \<Rightarrow> string list" where
  "pieces_of sig_part =
     map strip (filter (\<lambda>p. strip p \<notin> {''/'', ''*''}) (split CHR '','' sig_part))"

text \<open>The fallbacks under \<^verbatim>\<open>if not args:\<close>; they leave \<open>doc\<close> as it is.\<close>

definition fallback :: "pyobj \<Rightarrow> string list \<times> nat \<times> string \<Rightarrow> string list \<times> nat" where
  "fallback func v =
     (case v of (args, opt, doc) \<Rightarrow>
        if args = [] then
          (case o_text_signature func of
             Some (t # ts) \<Rightarrow>
               (parse_text_signature (t # ts),
                py_sum (map (\<lambda>p. CHR ''='' \<in> set p) (split CHR '','' (strip_parens (t # ts)))))
           | _ \<Rightarrow>
               if doc \<noteq> [] then
                 (case re_match_call doc of
                    Some sig_part \<Rightarrow>
                      (map (\<lambda>p. strip (first_piece CHR ''='' p)) (pieces_of sig_part),
                       py_sum (map (\<lambda>p. CHR ''='' \<in> set p) (pieces_of sig_part)))
                  | None \<Rightarrow> (args, opt))
               else (args, opt))
        else (args, opt))"

definition get_function_metadata :: "pyobj \<Rightarrow> string \<Rightarrow> exc + function_record" where
  "get_function_metadata func module_name =
     (case sig_and_doc func of
        Inl e \<Rightarrow> Inl e
      | Inr (args, opt, doc) \<Rightarrow>
          (case fallback func (args, opt, doc) of (args', opt') \<Rightarrow>
             Inr \<lparr> fr_name = getattr_name func, fr_args = args', fr_optionalCount = opt',
                   fr_doc = doc, fr_module = module_name \<rparr>))"

subsection \<open>Class records\<close>

record method_record =
  mr_name :: string
  mr_args :: "string list"
  mr_optionalCount :: nat
  mr_doc :: string

text \<open>
  A class record. \<open>cr_module\<close> is \<^verbatim>\<open>cls.__module__\<close> as it is, \<open>None\<close> for
  \<^verbatim>\<open>None\<close>.
\<close>

record class_record =
  cr_name :: string
  cr_doc :: string
  cr_methods :: "method_record list"
  cr_module :: "string option"

text \<open>\<^verbatim>\<open>cls.__name__\<close>, an \<^verbatim>\<open>AttributeError\<close> on an object that has none.\<close>

definition attr_name :: "pyobj \<Rightarrow> exc + string" where
  "attr_name cls = (case o_name cls of Some n \<Rightarrow> Inr n | None \<Rightarrow> Inl AttributeError)"

definition is_dunder :: "string \<Rightarrow> bool" where
  "is_dunder name = (startswith name ''__'' \<and> endswith name ''__'' \<and> name \<noteq> ''__init__'')"

text \<open>The loop of \<open>get_class_metadata\<close>, with the list \<open>methods\<close> it appends to.\<close>

fun class_methods ::
  "(string \<times> pyfunction) list \<Rightarrow> method_record list \<Rightarrow> exc + method_record list" where
  "class_methods [] methods = Inr methods"
| "class_methods ((name, member) # rest) methods =
     (if is_dunder name then class_methods rest methods
      else (case parse_sig (f_signature member) of
              Inl e \<Rightarrow> Inl e
            | Inr (args, opt) \<Rightarrow>
                (case f_getdoc member of
                   Inl e \<Rightarrow> Inl e
                 | Inr d \<Rightarrow>
                     class_methods rest
                       (methods @ [\<lparr> mr_name = name, mr_args = args, mr_optionalCount = opt,
                                     mr_doc = or_empty d \<rparr>]))))"

definition get_class_metadata :: "pyobj \<Rightarrow> exc + class_record" where
  "get_class_metadata cls =
     (case class_methods (o_functions cls) [] of
        Inl e \<Rightarrow> Inl e
      | Inr methods \<Rightarrow>
          (case attr_name cls of
             Inl e \<Rightarrow> Inl e
           | Inr n \<Rightarrow>
               (case o_getdoc cls of
                  Inl e \<Rightarrow> Inl e
                | Inr d \<Rightarrow>
                    Inr \<lparr> cr_name = n, cr_doc = or_empty d, cr_methods = methods,
                          cr_module = o_module cls \<rparr>)))"

subsection \<open>The traversal\<close>

text \<open>
  The dictionaries \<open>functions\<close> and \<open>classes\<close> keep their insertion order: a list of
  pairs with distinct keys, \<^verbatim>\<open>d[k] = v\<close> is \<open>AList.update k v d\<close> (a new key goes to
  the end), \<^verbatim>\<open>k in d\<close> is \<open>has_key\<close> and \<^verbatim>\<open>list(d.values())\<close> is \<open>map snd\<close>.
\<close>

type_synonym functions_dict = "(string \<times> function_record) list"
type_synonym classes_dict = "(string \<times> class_record) list"

definition has_key :: "'k \<Rightarrow> ('k \<times> 'v) list \<Rightarrow> bool" where
  "has_key k d = (k \<in> set (map fst d))"

definition SKIP_PATTERNS :: "string list" where
  "SKIP_PATTERNS = [''.f2py'']"

text \<open>\<open>allow\<close> is \<^verbatim>\<open>set(include_only or ())\<close>; \<^verbatim>\<open>not allow\<close> is \<open>allow = {}\<close>.\<close>

definition allow_of :: "string list option \<Rightarrow> string set" where
  "allow_of include_only = (case include_only of None \<Rightarrow> {} | Some xs \<Rightarrow> set xs)"

definition want :: "string set \<Rightarrow> string \<Rightarrow> bool" where
  "want allow name = (allow = {} \<or> name \<in> allow)"

text \<open>\<^verbatim>\<open>inspect.getmembers(mod, predicate)\<close>: the members the predicate accepts.\<close>

definition getmembers :: "(pyobj \<Rightarrow> bool) \<Rightarrow> (string \<times> pyobj) list \<Rightarrow> (string \<times> pyobj) list" where
  "getmembers predicate members = filter (\<lambda>(n, obj). predicate obj) members"

text \<open>The first loop of \<open>visit\<close>, over \<^verbatim>\<open>inspect.getmembers(mod, _is_callable)\<close>.\<close>

fun visit_functions ::
  "string \<Rightarrow> string set \<Rightarrow> (string \<times> pyobj) list \<Rightarrow> functions_dict \<Rightarrow> exc + functions_dict" where
  "visit_functions lib_name allow [] functions = Inr functions"
| "visit_functions lib_name allow ((n, obj) # rest) functions =
     (let module_name = or_empty (o_module obj)
      in if \<not> startswith module_name lib_name then visit_functions lib_name allow rest functions
         else
           (let fn_name = getattr_name obj
            in if \<not> want allow fn_name then visit_functions lib_name allow rest functions
               else if \<not> has_key fn_name functions then
                 (case get_function_metadata obj module_name of
                    Inl e \<Rightarrow> Inl e
                  | Inr r \<Rightarrow>
                      visit_functions lib_name allow rest (AList.update fn_name r functions))
               else visit_functions lib_name allow rest functions))"

text \<open>The second loop of \<open>visit\<close>, over \<^verbatim>\<open>inspect.getmembers(mod, inspect.isclass)\<close>.\<close>

fun visit_classes ::
  "string \<Rightarrow> string set \<Rightarrow> (string \<times> pyobj) list \<Rightarrow> classes_dict \<Rightarrow> exc + classes_dict" where
  "visit_classes lib_name allow [] classes = Inr classes"
| "visit_classes lib_name allow ((n, cls) # rest) classes =
     (let module_name = or_empty (o_module cls)
      in if \<not> startswith module_name lib_name then visit_classes lib_name allow rest classes
         else
           (case attr_name cls of
              Inl e \<Rightarrow> Inl e
            | Inr cname \<Rightarrow>
                if \<not> want allow cname then visit_classes lib_name allow rest classes
                else
                  (let key = module_name @ ''.'' @ cname
                   in if \<not> has_key key classes then
                        (case get_class_metadata cls of
                           Inl e \<Rightarrow> Inl e
                         | Inr r \<Rightarrow>
                             visit_classes lib_name allow rest (AList.update key r classes))
                      else visit_classes lib_name allow rest classes)))"

definition visit ::
  "string \<Rightarrow> string set \<Rightarrow> pymodule option \<Rightarrow> functions_dict \<times> classes_dict
     \<Rightarrow> exc + functions_dict \<times> classes_dict" where
  "visit lib_name allow module st =
     (case module of
        None \<Rightarrow> Inr st
      | Some m \<Rightarrow>
          (case st of (functions, classes) \<Rightarrow>
             (case visit_functions lib_name allow (getmembers is_callable (m_members m)) functions of
                Inl e \<Rightarrow> Inl e
              | Inr functions' \<Rightarrow>
                  (case visit_classes lib_name allow (getmembers isclass (m_members m)) classes of
                     Inl e \<Rightarrow> Inl e
                   | Inr classes' \<Rightarrow> Inr (functions', classes')))))"

text \<open>
  \<^verbatim>\<open>pkgutil.walk_packages(path, prefix, onerror)\<close> of the standard library, called with
  an \<open>onerror\<close> that returns. It yields each entry of \<open>path\<close> under its prefixed name
  and, after a package, imports that package itself with \<^verbatim>\<open>__import__\<close> to walk its
  \<^verbatim>\<open>__path__\<close>: an \<^verbatim>\<open>ImportError\<close> or another \<^verbatim>\<open>Exception\<close> of that import goes to
  \<open>onerror\<close> and the walk goes on with the next entry; any other exception leaves the
  generator. The result is the list of names yielded, and the exception that ended the
  walk, if one did.
\<close>

fun walk_packages :: "importer \<Rightarrow> pkg_entry list \<Rightarrow> string \<Rightarrow> string list \<times> exc option" where
  "walk_packages imp [] pre = ([], None)"
| "walk_packages imp (Entry n ispkg sub # rest) pre =
     (let name = pre @ n
      in if ispkg then
           (case imp name of
              Inl e \<Rightarrow>
                if is_Exception e then
                  (case walk_packages imp rest pre of (zs, r) \<Rightarrow> (name # zs, r))
                else ([name], Some e)
            | Inr m \<Rightarrow>
                (case walk_packages imp sub (name @ ''.'') of
                   (ys, Some e) \<Rightarrow> (name # ys, Some e)
                 | (ys, None) \<Rightarrow>
                     (case walk_packages imp rest pre of (zs, r) \<Rightarrow> (name # ys @ zs, r))))
         else (case walk_packages imp rest pre of (zs, r) \<Rightarrow> (name # zs, r)))"

text \<open>The body of the loop over the names \<open>walk_packages\<close> yields.\<close>

fun scan ::
  "importer \<Rightarrow> string \<Rightarrow> string set \<Rightarrow> string list \<Rightarrow> functions_dict \<times> classes_dict
     \<Rightarrow> exc + functions_dict \<times> classes_dict" where
  "scan imp lib_name allow [] st = Inr st"
| "scan imp lib_name allow (subname # rest) st =
     (if list_ex (endswith subname) SKIP_PATTERNS then scan imp lib_name allow rest st
      else
        (case safe_import imp subname of
           Inl e \<Rightarrow> Inl e
         | Inr module \<Rightarrow>
             (case visit lib_name allow module st of
                Inl e \<Rightarrow> Inl e
              | Inr st' \<Rightarrow> scan imp lib_name allow rest st')))"

text \<open>
  The block \<^verbatim>\<open>if not allow and hasattr(root, "__path__")\<close>: the loop runs over the names
  yielded; an exception that ends the generator leaves the loop after them.
\<close>

definition recurse ::
  "importer \<Rightarrow> string \<Rightarrow> string set \<Rightarrow> pymodule \<Rightarrow> functions_dict \<times> classes_dict
     \<Rightarrow> exc + functions_dict \<times> classes_dict" where
  "recurse imp lib_name allow root st =
     (case m_path root of
        None \<Rightarrow> Inr st
      | Some path \<Rightarrow>
          if allow = {} then
            (case walk_packages imp path (m_name root @ ''.'') of (names, r) \<Rightarrow>
               (case scan imp lib_name allow names st of
                  Inl e \<Rightarrow> Inl e
                | Inr st' \<Rightarrow> (case r of None \<Rightarrow> Inr st' | Some e \<Rightarrow> Inl e)))
          else Inr st)"

text \<open>
  The result dictionary: \<^verbatim>\<open>{"error": ...}\<close> or
  \<^verbatim>\<open>{"library": ..., "functions": ..., "classes": ...}\<close>.
\<close>

datatype analysis =
  Error string
| Analysis string "function_record list" "class_record list"

definition analyze_library :: "importer \<Rightarrow> string \<Rightarrow> string list option \<Rightarrow> exc + analysis" where
  "analyze_library imp lib_name include_only =
     (case safe_import imp lib_name of
        Inl e \<Rightarrow> Inl e
      | Inr None \<Rightarrow> Inr (Error (''Failed to import '' @ lib_name))
      | Inr (Some root) \<Rightarrow>
          (case visit lib_name (allow_of include_only) (Some root) ([], []) of
             Inl e \<Rightarrow> Inl e
           | Inr st \<Rightarrow>
               (case recurse imp lib_name (allow_of include_only) root st of
                  Inl e \<Rightarrow> Inl e
                | Inr (functions, classes) \<Rightarrow>
                    Inr (Analysis lib_name (map snd functions) (map snd classes)))))"

subsection \<open>Notions of the specification\<close>

text \<open>
  The tokens of a text signature that name a parameter: the signature without the
  whitespace around it and without its enclosing parentheses, split at the commas, each
  token trimmed, without the separator tokens \<^verbatim>\<open>/\<close> and \<^verbatim>\<open>*\<close> and without empty tokens.
\<close>

definition remaining_tokens :: "string \<Rightarrow> string list" where
  "remaining_tokens sig =
     filter (\<lambda>t. t \<notin> {''/'', ''*'', []})
       (map strip (split CHR '','' (strip_parens (strip sig))))"

text \<open>The number of pieces between commas that hold an equals sign.\<close>

definition eq_pieces :: "string \<Rightarrow> nat" where
  "eq_pieces s = length (filter (\<lambda>p. CHR ''='' \<in> set p) (split CHR '','' s))"

text \<open>
  The invariants of the two dictionaries: the keys are distinct, a function record is
  stored under its name, a class record under \<open>class_key\<close>, its module and its name
  joined by a dot.
\<close>

definition functions_inv :: "functions_dict \<Rightarrow> bool" where
  "functions_inv d = (distinct (map fst d) \<and> list_all (\<lambda>(k, r). fr_name r = k) d)"

definition class_key :: "class_record \<Rightarrow> string" where
  "class_key r = or_empty (cr_module r) @ ''.'' @ cr_name r"

definition classes_inv :: "classes_dict \<Rightarrow> bool" where
  "classes_inv d = (distinct (map fst d) \<and> list_all (\<lambda>(k, r). k = class_key r) d)"


section \<open>Example inputs\<close>

text \<open>The parameters of \<^verbatim>\<open>def foo(a, b=1, *args)\<close>.\<close>

definition abc_params :: "parameter list" where
  "abc_params =
     [\<lparr> p_name = ''a'', p_has_default = False, p_kind = POSITIONAL_OR_KEYWORD \<rparr>,
      \<lparr> p_name = ''b'', p_has_default = True, p_kind = POSITIONAL_OR_KEYWORD \<rparr>,
      \<lparr> p_name = ''args'', p_has_default = False, p_kind = VAR_POSITIONAL \<rparr>]"

definition foo_function :: pyobj where
  "foo_function =
     \<lparr> o_kind = CallableObj, o_module = Some ''lib'', o_name = Some ''foo'',
       o_repr = ''<function foo>'', o_signature = Inr abc_params,
       o_getdoc = Inr (Some ''Do foo.''), o_text_signature = None, o_functions = [] \<rparr>"

text \<open>
  A class \<^verbatim>\<open>Widget\<close> declared in \<^verbatim>\<open>lib.core\<close>, with \<^verbatim>\<open>__init__(self, size=0)\<close>,
  \<^verbatim>\<open>__repr__(self)\<close> and \<^verbatim>\<open>resize(self, size)\<close>.
\<close>

definition self_param :: parameter where
  "self_param = \<lparr> p_name = ''self'', p_has_default = False, p_kind = POSITIONAL_OR_KEYWORD \<rparr>"

definition widget_class :: pyobj where
  "widget_class =
     \<lparr> o_kind = ClassObj, o_module = Some ''lib.core'', o_name = Some ''Widget'',
       o_repr = ''<class Widget>'',
       o_signature =
         Inr [\<lparr> p_name = ''size'', p_has_default = True, p_kind = POSITIONAL_OR_KEYWORD \<rparr>],
       o_getdoc = Inr (Some ''A widget.''), o_text_signature = None,
       o_functions =
         [(''__init__'',
           \<lparr> f_signature =
               Inr [self_param,
                    \<lparr> p_name = ''size'', p_has_default = True, p_kind = POSITIONAL_OR_KEYWORD \<rparr>],
             f_getdoc = Inr None \<rparr>),
          (''__repr__'', \<lparr> f_signature = Inr [self_param], f_getdoc = Inr None \<rparr>),
          (''resize'',
           \<lparr> f_signature =
               Inr [self_param,
                    \<lparr> p_name = ''size'', p_has_default = False, p_kind = POSITIONAL_OR_KEYWORD \<rparr>],
             f_getdoc = Inr (Some ''Resize.'') \<rparr>)] \<rparr>"

text \<open>A function re-exported from another library, and a constant.\<close>

definition getcwd_function :: pyobj where
  "getcwd_function =
     \<lparr> o_kind = CallableObj, o_module = Some ''os'', o_name = Some ''getcwd'',
       o_repr = ''<built-in function getcwd>'', o_signature = Inr [],
       o_getdoc = Inr None, o_text_signature = Some ''($module, /)'', o_functions = [] \<rparr>"

definition version_constant :: pyobj where
  "version_constant =
     \<lparr> o_kind = DataObj, o_module = None, o_name = None, o_repr = ''1'',
       o_signature = Inl TypeError, o_getdoc = Inr None, o_text_signature = None,
       o_functions = [] \<rparr>"

text \<open>
  A compiled callable of \<^verbatim>\<open>lib.sub\<close> that is named \<^verbatim>\<open>foo\<close> too; it has no structured
  signature, and the text signature \<^verbatim>\<open>(x, y=2)\<close>.
\<close>

definition sub_foo :: pyobj where
  "sub_foo =
     \<lparr> o_kind = CallableObj, o_module = Some ''lib.sub'', o_name = Some ''foo'',
       o_repr = ''<built-in function foo>'', o_signature = Inl ValueError,
       o_getdoc = Inr None, o_text_signature = Some ''(x, y=2)'', o_functions = [] \<rparr>"

text \<open>
  A compiled callable of \<^verbatim>\<open>lib.sub\<close> with neither signature, documented by
  \<^verbatim>\<open>"bar(p, q=3)\n..."\<close>.
\<close>

definition sub_bar :: pyobj where
  "sub_bar =
     \<lparr> o_kind = CallableObj, o_module = Some ''lib.sub'', o_name = Some ''bar'',
       o_repr = ''<built-in function bar>'', o_signature = Inl ValueError,
       o_getdoc = Inr (Some (''bar(p, q=3)'' @ [CHR 0x0A] @ ''Do bar.'')),
       o_text_signature = None, o_functions = [] \<rparr>"

text \<open>
  The library \<^verbatim>\<open>lib\<close>: a package with a module \<^verbatim>\<open>lib.sub\<close>, a module
  \<^verbatim>\<open>lib.cli\<close> that calls \<^verbatim>\<open>sys.exit()\<close> when imported, and a module
  \<^verbatim>\<open>lib.broken\<close> whose import fails; the import of \<^verbatim>\<open>lib.stop\<close>, which the package
  does not list, raises an exception that derives from \<^verbatim>\<open>BaseException\<close> only.
\<close>

definition lib_root :: pymodule where
  "lib_root =
     \<lparr> m_name = ''lib'',
       m_path = Some [Entry ''broken'' False [], Entry ''cli'' False [], Entry ''sub'' False []],
       m_members =
         [(''VERSION'', version_constant), (''Widget'', widget_class), (''foo'', foo_function),
          (''getcwd'', getcwd_function)] \<rparr>"

definition lib_sub :: pymodule where
  "lib_sub =
     \<lparr> m_name = ''lib.sub'', m_path = None,
       m_members = [(''Widget'', widget_class), (''bar'', sub_bar), (''foo'', sub_foo)] \<rparr>"

definition lib_importer :: importer where
  "lib_importer name =
     (if name = ''lib'' then Inr lib_root
      else if name = ''lib.sub'' then Inr lib_sub
      else if name = ''lib.cli'' then Inl SystemExit
      else if name = ''lib.stop'' then Inl OtherBaseException
      else Inl OtherException)"

text \<open>
  The library \<^verbatim>\<open>pkg\<close>: a package whose sub-package \<^verbatim>\<open>pkg.cli\<close> calls
  \<^verbatim>\<open>sys.exit()\<close> in its \<^verbatim>\<open>__init__\<close>.
\<close>

definition pkg_root :: pymodule where
  "pkg_root = \<lparr> m_name = ''pkg'', m_path = Some [Entry ''cli'' True []], m_members = [] \<rparr>"

definition exit_importer :: importer where
  "exit_importer name =
     (if name = ''pkg'' then Inr pkg_root
      else if name = ''pkg.cli'' then Inl SystemExit
      else Inl OtherException)"


text \<open>
  A compiled callable with neither signature, documented by \<^verbatim>\<open>"foo()"\<close>.
\<close>

definition doc_only_function :: pyobj where
  "doc_only_function =
     \<lparr> o_kind = CallableObj, o_module = Some ''lib'', o_name = Some ''foo'',
       o_repr = ''<built-in function foo>'', o_signature = Inl ValueError,
       o_getdoc = Inr (Some ''foo()''), o_text_signature = None, o_functions = [] \<rparr>"

text \<open>The records of the analysis of \<^verbatim>\<open>lib\<close>.\<close>

definition widget_function_record :: function_record where
  "widget_function_record =
     \<lparr> fr_name = ''Widget'', fr_args = [''size''], fr_optionalCount = 1,
       fr_doc = ''A widget.'', fr_module = ''lib.core'' \<rparr>"

definition foo_record :: function_record where
  "foo_record =
     \<lparr> fr_name = ''foo'', fr_args = [''a'', ''b'', ''args''], fr_optionalCount = 2,
       fr_doc = ''Do foo.'', fr_module = ''lib'' \<rparr>"

definition bar_record :: function_record where
  "bar_record =
     \<lparr> fr_name = ''bar'', fr_args = [''p'', ''q''], fr_optionalCount = 1,
       fr_doc = ''bar(p, q=3)'' @ [CHR 0x0A] @ ''Do bar.'', fr_module = ''lib.sub'' \<rparr>"

definition widget_record :: class_record where
  "widget_record =
     \<lparr> cr_name = ''Widget'', cr_doc = ''A widget.'',
       cr_methods =
         [\<lparr> mr_name = ''__init__'', mr_args = [''self'', ''size''], mr_optionalCount = 1,
            mr_doc = [] \<rparr>,
          \<lparr> mr_name = ''resize'', mr_args = [''self'', ''size''], mr_optionalCount = 0,
            mr_doc = ''Resize.'' \<rparr>],
       cr_module = Some ''lib.core'' \<rparr>"

definition root_functions :: functions_dict where
  "root_functions = [(''Widget'', widget_function_record), (''foo'', foo_record)]"

definition root_classes :: classes_dict where
  "root_classes = [(''lib.core.Widget'', widget_record)]"











section \<open>Properties\<close>

subsection \<open>Auxiliary facts\<close>

lemma is_Exception_iff:
  "is_Exception e \<longleftrightarrow> e \<noteq> SystemExit \<and> e \<noteq> OtherBaseException"
  by (cases e) simp_all

lemma py_sum_filter: "py_sum (map P xs) = length (filter P xs)"
  by (induction xs) (simp_all add: py_sum_def)

text \<open>Splitting and stripping.\<close>

lemma split_not_Nil: "split sep s \<noteq> []"
  by (induction s) (auto split: list.splits)

lemma split_Cons_other:
  "c \<noteq> sep \<Longrightarrow> split sep (c # cs) = (c # hd (split sep cs)) # tl (split sep cs)"
  using split_not_Nil [of sep cs] by (cases "split sep cs") auto

lemma first_piece_takeWhile: "first_piece sep s = takeWhile (\<lambda>c. c \<noteq> sep) s"
proof -
  have "hd (split sep s) = takeWhile (\<lambda>c. c \<noteq> sep) s"
  proof (induction s)
    case Nil
    then show ?case by simp
  next
    case (Cons x xs)
    show ?case
    proof (cases "x = sep")
      case True
      then show ?thesis by simp
    next
      case False
      with Cons show ?thesis by (simp add: split_Cons_other del: split.simps(2))
    qed
  qed
  then show ?thesis
    using split_not_Nil [of sep s] by (cases "split sep s") (auto simp: first_piece_def)
qed

lemma parse_text_loop_eq:
  "parse_text_loop toks args =
     args @ map (\<lambda>t. strip (first_piece CHR ''='' t))
              (filter (\<lambda>t. t \<notin> {''/'', ''*'', []}) (map strip toks))"
  by (induction toks arbitrary: args) (auto simp: Let_def)

lemma eq_pieces_Cons:
  "c \<noteq> CHR '','' \<Longrightarrow> c \<noteq> CHR ''='' \<Longrightarrow> eq_pieces (c # cs) = eq_pieces cs"
  using split_not_Nil [of "CHR '',''" cs]
  by (cases "split CHR '','' cs") (auto simp: eq_pieces_def)

lemma split_snoc_other:
  "c \<noteq> sep \<Longrightarrow>
     split sep (s @ [c]) = butlast (split sep s) @ [last (split sep s) @ [c]]"
proof (induction s)
  case Nil
  then show ?case by simp
next
  case (Cons x xs)
  then show ?case
    using split_not_Nil [of sep xs] split_not_Nil [of sep "xs @ [c]"]
    by (cases "split sep xs") (auto split: list.splits)
qed

lemma eq_pieces_snoc:
  assumes "c \<noteq> CHR '',''" "c \<noteq> CHR ''=''"
  shows "eq_pieces (s @ [c]) = eq_pieces s"
proof -
  let ?ps = "split CHR '','' s"
  have "?ps = butlast ?ps @ [last ?ps]"
    using split_not_Nil [of "CHR '',''" s] by simp
  then have "length (filter (\<lambda>p. CHR ''='' \<in> set p) ?ps) =
      length (filter (\<lambda>p. CHR ''='' \<in> set p) (butlast ?ps @ [last ?ps]))"
    by simp
  with assms show ?thesis
    by (simp add: eq_pieces_def split_snoc_other)
qed

lemma eq_pieces_dropWhile:
  assumes "\<not> P CHR '',''" "\<not> P CHR ''=''"
  shows "eq_pieces (dropWhile P s) = eq_pieces s"
proof (induction s)
  case Nil
  then show ?case by simp
next
  case (Cons x xs)
  show ?case
  proof (cases "P x")
    case True
    with assms have "x \<noteq> CHR '',''" "x \<noteq> CHR ''=''" by auto
    with True Cons show ?thesis by (simp add: eq_pieces_Cons)
  next
    case False
    then show ?thesis by simp
  qed
qed

lemma eq_pieces_rstrip:
  assumes "\<not> P CHR '',''" "\<not> P CHR ''=''"
  shows "eq_pieces (rev (dropWhile P (rev s))) = eq_pieces s"
proof (induction s rule: rev_induct)
  case Nil
  then show ?case by simp
next
  case (snoc x xs)
  show ?case
  proof (cases "P x")
    case True
    with assms have "x \<noteq> CHR '',''" "x \<noteq> CHR ''=''" by auto
    with True snoc show ?thesis by (simp add: eq_pieces_snoc)
  next
    case False
    then show ?thesis by simp
  qed
qed

lemma eq_pieces_strip_chars:
  "\<not> P CHR '','' \<Longrightarrow> \<not> P CHR ''='' \<Longrightarrow> eq_pieces (strip_chars P s) = eq_pieces s"
  by (simp add: strip_chars_def eq_pieces_rstrip eq_pieces_dropWhile)

lemma isspace_comma_eq: "\<not> isspace CHR '',''" "\<not> isspace CHR ''=''"
  by (simp_all add: isspace_def)

lemma is_paren_comma_eq: "\<not> is_paren CHR '',''" "\<not> is_paren CHR ''=''"
  by (simp_all add: is_paren_def)

lemma eq_in_strip_chars:
  assumes "\<not> P CHR ''=''"
  shows "CHR ''='' \<in> set (strip_chars P t) \<longleftrightarrow> CHR ''='' \<in> set t"
proof -
  have a: "CHR ''='' \<in> set (dropWhile P u) \<longleftrightarrow> CHR ''='' \<in> set u" for u
    using assms by (induction u) auto
  have "CHR ''='' \<in> set (strip_chars P t) \<longleftrightarrow> CHR ''='' \<in> set (dropWhile P (rev (dropWhile P t)))"
    by (simp add: strip_chars_def)
  also have "\<dots> \<longleftrightarrow> CHR ''='' \<in> set (rev (dropWhile P t))"
    by (rule a)
  also have "\<dots> \<longleftrightarrow> CHR ''='' \<in> set t"
    using a [of t] by simp
  finally show ?thesis .
qed

lemma eq_tokens_remaining:
  "length (filter (\<lambda>t. CHR ''='' \<in> set t)
       (filter (\<lambda>t. t \<notin> {''/'', ''*'', []}) (map strip toks))) =
   length (filter (\<lambda>p. CHR ''='' \<in> set p) toks)"
proof (induction toks)
  case Nil
  then show ?case by simp
next
  case (Cons t toks)
  have "CHR ''='' \<in> set (strip t) \<longleftrightarrow> CHR ''='' \<in> set t"
    by (simp add: strip_def eq_in_strip_chars isspace_comma_eq)
  moreover have "strip t \<notin> {''/'', ''*'', []}" if "CHR ''='' \<in> set (strip t)"
    using that by auto
  ultimately show ?case using Cons by auto
qed

lemma eq_pieces_text_signature:
  "length (filter (\<lambda>p. CHR ''='' \<in> set p) (split CHR '','' (strip_parens ts))) =
   length (filter (\<lambda>t. CHR ''='' \<in> set t) (remaining_tokens ts))"
proof -
  have "eq_pieces (strip_parens ts) = eq_pieces (strip_parens (strip ts))"
    by (simp add: strip_parens_def strip_def eq_pieces_strip_chars isspace_comma_eq
        is_paren_comma_eq)
  moreover have "length (filter (\<lambda>t. CHR ''='' \<in> set t) (remaining_tokens ts)) =
      eq_pieces (strip_parens (strip ts))"
    unfolding remaining_tokens_def eq_pieces_def by (rule eq_tokens_remaining)
  ultimately show ?thesis
    by (simp only: eq_pieces_def)
qed

text \<open>
  The documentation texts that \<open>re_match_call\<close> matches: whitespace, a name, an opening
  parenthesis, the group without closing parenthesis and newline, a closing parenthesis.
\<close>

lemma dropWhile_run:
  "list_all P xs \<Longrightarrow> \<not> P y \<Longrightarrow> dropWhile P (xs @ y # ys) = y # ys"
  by (induction xs) auto

lemma takeWhile_run:
  "list_all P xs \<Longrightarrow> \<not> P y \<Longrightarrow> takeWhile P (xs @ y # ys) = xs"
  by (induction xs) auto

lemma name_start_not_space: "is_name_start c \<Longrightarrow> \<not> isspace c"
  by (auto simp: is_name_start_def isspace_def Let_def)

lemma re_match_call_matches:
  assumes "list_all isspace ws" "is_name_start c" "list_all is_name_char nm"
    and "list_all in_group g"
  shows "re_match_call (ws @ c # nm @ ''('' @ g @ '')'' @ rest) = Some g"
proof -
  have p: "\<not> is_name_char CHR ''(''" "\<not> in_group CHR '')''"
    by (simp_all add: is_name_char_def in_group_def)
  from assms(1,2) have "dropWhile isspace (ws @ c # nm @ ''('' @ g @ '')'' @ rest) =
      c # nm @ ''('' @ g @ '')'' @ rest"
    by (simp add: dropWhile_run name_start_not_space)
  moreover from assms(3) p(1) have "dropWhile is_name_char (nm @ ''('' @ g @ '')'' @ rest) =
      ''('' @ g @ '')'' @ rest"
    by (simp add: dropWhile_run)
  moreover from assms(4) p(2) have "dropWhile in_group (g @ '')'' @ rest) = '')'' @ rest"
    "takeWhile in_group (g @ '')'' @ rest) = g"
    by (simp_all add: dropWhile_run takeWhile_run)
  ultimately show ?thesis
    using assms(2) by (simp add: re_match_call_def)
qed

lemma re_match_call_shape:
  assumes "re_match_call doc = Some g"
  shows "\<exists>ws c nm rest. doc = ws @ c # nm @ ''('' @ g @ '')'' @ rest \<and>
    list_all isspace ws \<and> is_name_start c \<and> list_all is_name_char nm \<and> list_all in_group g"
proof -
  from assms obtain c cs where a: "dropWhile isspace doc = c # cs" "is_name_start c"
    by (auto simp: re_match_call_def split: list.splits if_splits)
  with assms obtain ds where b: "dropWhile is_name_char cs = CHR ''('' # ds"
    by (auto simp: re_match_call_def split: list.splits if_splits)
  with a assms obtain es where d: "dropWhile in_group ds = CHR '')'' # es"
    and g: "g = takeWhile in_group ds"
    by (auto simp: re_match_call_def split: list.splits if_splits)
  have "doc = takeWhile isspace doc @ dropWhile isspace doc" by simp
  also have "\<dots> = takeWhile isspace doc @ c # (takeWhile is_name_char cs @ dropWhile is_name_char cs)"
    by (simp add: a)
  also have "\<dots> = takeWhile isspace doc @ c # takeWhile is_name_char cs @ ''('' @
      (takeWhile in_group ds @ dropWhile in_group ds)"
    by (simp add: b)
  also have "\<dots> = takeWhile isspace doc @ c # takeWhile is_name_char cs @ ''('' @ g @ '')'' @ es"
    by (simp add: d g)
  finally have "doc = takeWhile isspace doc @ c # takeWhile is_name_char cs @ ''('' @ g @ '')'' @ es" .
  moreover have "list_all isspace (takeWhile isspace doc)"
    "list_all is_name_char (takeWhile is_name_char cs)" "list_all in_group g"
    by (auto simp: g list_all_iff dest: set_takeWhileD)
  ultimately show ?thesis using a(2) by blast
qed

text \<open>The dictionaries only grow, and keep their invariants.\<close>

lemma update_new: "\<not> has_key k d \<Longrightarrow> AList.update k v d = d @ [(k, v)]"
  by (induction d) (auto simp: has_key_def)

lemma get_function_metadata_name:
  "get_function_metadata obj mn = Inr r \<Longrightarrow> fr_name r = getattr_name obj"
  by (auto simp: get_function_metadata_def split: sum.splits prod.splits)

lemma get_class_metadata_fields:
  "get_class_metadata cls = Inr r \<Longrightarrow> attr_name cls = Inr (cr_name r) \<and> cr_module r = o_module cls"
  by (auto simp: get_class_metadata_def split: sum.splits)

lemma visit_functions_prefix:
  "visit_functions lib allow ms fs = Inr fs' \<Longrightarrow> prefix fs fs'"
proof (induction ms arbitrary: fs)
  case Nil
  then show ?case by simp
next
  case (Cons a ms)
  obtain n obj where a: "a = (n, obj)" by (cases a)
  from Cons.prems consider
      (skip) "visit_functions lib allow ms fs = Inr fs'"
    | (add) r where "\<not> has_key (getattr_name obj) fs"
        "visit_functions lib allow ms (AList.update (getattr_name obj) r fs) = Inr fs'"
    by (auto simp: a Let_def split: if_splits sum.splits)
  then show ?case
  proof cases
    case skip
    then show ?thesis by (rule Cons.IH)
  next
    case add
    from add(2) have "prefix (AList.update (getattr_name obj) r fs) fs'" by (rule Cons.IH)
    with add(1) show ?thesis by (auto simp: update_new dest: append_prefixD)
  qed
qed

lemma visit_functions_inv:
  "visit_functions lib allow ms fs = Inr fs' \<Longrightarrow> functions_inv fs \<Longrightarrow> functions_inv fs'"
proof (induction ms arbitrary: fs)
  case Nil
  then show ?case by simp
next
  case (Cons a ms)
  obtain n obj where a: "a = (n, obj)" by (cases a)
  from Cons.prems(1) consider
      (skip) "visit_functions lib allow ms fs = Inr fs'"
    | (add) r where "\<not> has_key (getattr_name obj) fs"
        "get_function_metadata obj (or_empty (o_module obj)) = Inr r"
        "visit_functions lib allow ms (AList.update (getattr_name obj) r fs) = Inr fs'"
    by (auto simp: a Let_def split: if_splits sum.splits)
  then show ?case
  proof cases
    case skip
    then show ?thesis using Cons.prems(2) by (rule Cons.IH)
  next
    case add
    from add(1,2) Cons.prems(2)
    have "functions_inv (AList.update (getattr_name obj) r fs)"
      by (auto simp: update_new functions_inv_def has_key_def
          dest: get_function_metadata_name)
    with add(3) show ?thesis by (rule Cons.IH)
  qed
qed

lemma visit_classes_prefix:
  "visit_classes lib allow ms cs = Inr cs' \<Longrightarrow> prefix cs cs'"
proof (induction ms arbitrary: cs)
  case Nil
  then show ?case by simp
next
  case (Cons a ms)
  obtain n cls where a: "a = (n, cls)" by (cases a)
  from Cons.prems consider
      (skip) "visit_classes lib allow ms cs = Inr cs'"
    | (add) k r where "\<not> has_key k cs"
        "visit_classes lib allow ms (AList.update k r cs) = Inr cs'"
    by (auto simp: a Let_def split: if_splits sum.splits)
  then show ?case
  proof cases
    case skip
    then show ?thesis by (rule Cons.IH)
  next
    case add
    from add(2) have "prefix (AList.update k r cs) cs'" by (rule Cons.IH)
    with add(1) show ?thesis by (auto simp: update_new dest: append_prefixD)
  qed
qed

lemma visit_classes_inv:
  "visit_classes lib allow ms cs = Inr cs' \<Longrightarrow> classes_inv cs \<Longrightarrow> classes_inv cs'"
proof (induction ms arbitrary: cs)
  case Nil
  then show ?case by simp
next
  case (Cons a ms)
  obtain n cls where a: "a = (n, cls)" by (cases a)
  from Cons.prems(1) consider
      (skip) "visit_classes lib allow ms cs = Inr cs'"
    | (add) cname r where "attr_name cls = Inr cname"
        "\<not> has_key (or_empty (o_module cls) @ ''.'' @ cname) cs"
        "get_class_metadata cls = Inr r"
        "visit_classes lib allow ms
           (AList.update (or_empty (o_module cls) @ ''.'' @ cname) r cs) = Inr cs'"
    by (auto simp: a Let_def split: if_splits sum.splits)
  then show ?case
  proof cases
    case skip
    then show ?thesis using Cons.prems(2) by (rule Cons.IH)
  next
    case add
    from add(3) have "attr_name cls = Inr (cr_name r)" "cr_module r = o_module cls"
      using get_class_metadata_fields by blast+
    with add(1) have "or_empty (o_module cls) @ ''.'' @ cname = class_key r"
      by (simp add: class_key_def)
    with add(2) Cons.prems(2)
    have "classes_inv (AList.update (or_empty (o_module cls) @ ''.'' @ cname) r cs)"
      by (auto simp: update_new classes_inv_def has_key_def)
    with add(4) show ?thesis by (rule Cons.IH)
  qed
qed

lemma visit_step:
  assumes "visit lib allow md (fs, cs) = Inr (fs', cs')"
  shows "prefix fs fs' \<and> prefix cs cs' \<and>
    (functions_inv fs \<longrightarrow> functions_inv fs') \<and> (classes_inv cs \<longrightarrow> classes_inv cs')"
proof (cases md)
  case None
  with assms show ?thesis by (simp add: visit_def)
next
  case (Some m)
  with assms have
    "visit_functions lib allow (getmembers is_callable (m_members m)) fs = Inr fs'"
    "visit_classes lib allow (getmembers isclass (m_members m)) cs = Inr cs'"
    by (auto simp: visit_def split: sum.splits)
  then show ?thesis
    using visit_functions_prefix visit_functions_inv visit_classes_prefix visit_classes_inv
    by blast
qed

lemma scan_step:
  "scan imp lib allow names (fs, cs) = Inr (fs', cs') \<Longrightarrow>
     prefix fs fs' \<and> prefix cs cs' \<and>
     (functions_inv fs \<longrightarrow> functions_inv fs') \<and> (classes_inv cs \<longrightarrow> classes_inv cs')"
proof (induction names arbitrary: fs cs)
  case Nil
  then show ?case by simp
next
  case (Cons name names)
  from Cons.prems consider
      (skip) "scan imp lib allow names (fs, cs) = Inr (fs', cs')"
    | (visit) md fs1 cs1 where "visit lib allow md (fs, cs) = Inr (fs1, cs1)"
        "scan imp lib allow names (fs1, cs1) = Inr (fs', cs')"
    by (auto split: if_splits sum.splits)
  then show ?case
  proof cases
    case skip
    then show ?thesis by (rule Cons.IH)
  next
    case visit
    from visit(1) have a: "prefix fs fs1 \<and> prefix cs cs1 \<and>
        (functions_inv fs \<longrightarrow> functions_inv fs1) \<and> (classes_inv cs \<longrightarrow> classes_inv cs1)"
      by (rule visit_step)
    from visit(2) have "prefix fs1 fs' \<and> prefix cs1 cs' \<and>
        (functions_inv fs1 \<longrightarrow> functions_inv fs') \<and> (classes_inv cs1 \<longrightarrow> classes_inv cs')"
      by (rule Cons.IH)
    with a show ?thesis by (meson prefix_order.order_trans)
  qed
qed

lemma recurse_step:
  assumes "recurse imp lib allow root (fs, cs) = Inr (fs', cs')"
  shows "prefix fs fs' \<and> prefix cs cs' \<and>
     (functions_inv fs \<longrightarrow> functions_inv fs') \<and> (classes_inv cs \<longrightarrow> classes_inv cs')"
proof -
  have "(fs' = fs \<and> cs' = cs) \<or>
      (\<exists>names. scan imp lib allow names (fs, cs) = Inr (fs', cs'))"
  proof (cases "m_path root")
    case None
    with assms show ?thesis by (simp add: recurse_def)
  next
    case (Some path)
    show ?thesis
    proof (cases "allow = {}")
      case False
      with Some assms show ?thesis by (simp add: recurse_def)
    next
      case True
      obtain names r where w: "walk_packages imp path (m_name root @ ''.'') = (names, r)"
        by (cases "walk_packages imp path (m_name root @ ''.'')")
      from assms Some True w have "scan imp lib allow names (fs, cs) = Inr (fs', cs')"
        by (cases "scan imp lib allow names (fs, cs)"; cases r) (simp_all add: recurse_def)
      then show ?thesis by blast
    qed
  qed
  then consider
      (same) "fs' = fs" "cs' = cs"
    | (walk) names where "scan imp lib allow names (fs, cs) = Inr (fs', cs')"
    by blast
  then show ?thesis
  proof cases
    case same
    then show ?thesis by simp
  next
    case walk
    then show ?thesis by (rule scan_step)
  qed
qed

lemma functions_inv_names:
  "functions_inv d \<Longrightarrow> map fr_name (map snd d) = map fst d"
  by (induction d) (auto simp: functions_inv_def)

lemma classes_inv_keys:
  "classes_inv d \<Longrightarrow> map class_key (map snd d) = map fst d"
  by (induction d) (auto simp: classes_inv_def)

lemma analyze_library_states:
  assumes "analyze_library imp lib inc = Inr (Analysis l fs cs)"
  obtains root fd0 cd0 fd cd where
    "imp lib = Inr root" "l = lib"
    "visit lib (allow_of inc) (Some root) ([], []) = Inr (fd0, cd0)"
    "recurse imp lib (allow_of inc) root (fd0, cd0) = Inr (fd, cd)"
    "fs = map snd fd" "cs = map snd cd"
  using assms
  by (auto simp: analyze_library_def safe_import_def
      split: sum.splits option.splits prod.splits if_splits)

lemma analyze_library_inv:
  assumes "analyze_library imp lib inc = Inr (Analysis l fs cs)"
  shows "distinct (map fr_name fs) \<and> distinct (map class_key cs)"
proof -
  from assms obtain root fd0 cd0 fd cd where
    v: "visit lib (allow_of inc) (Some root) ([], []) = Inr (fd0, cd0)"
    and r: "recurse imp lib (allow_of inc) root (fd0, cd0) = Inr (fd, cd)"
    and fs: "fs = map snd fd" and cs: "cs = map snd cd"
    by (rule analyze_library_states)
  have "functions_inv []" "classes_inv []"
    by (simp_all add: functions_inv_def classes_inv_def)
  with visit_step [OF v] have "functions_inv fd0" "classes_inv cd0" by blast+
  with recurse_step [OF r] have "functions_inv fd" "classes_inv cd" by blast+
  then have "distinct (map fr_name (map snd fd))" "distinct (map class_key (map snd cd))"
    by (simp_all only: functions_inv_names classes_inv_keys)
      (simp_all add: functions_inv_def classes_inv_def)
  then show ?thesis
    by (simp only: fs cs)
qed

text \<open>The analysis of the example library.\<close>

lemma lib_analysis:
  "analyze_library lib_importer ''lib'' None =
     Inr (Analysis ''lib'' [widget_function_record, foo_record, bar_record] [widget_record])"
  by code_simp

lemma lib_root_visit:
  "visit ''lib'' {} (Some lib_root) ([], []) = Inr (root_functions, root_classes)"
  by code_simp

lemma lib_sub_visit:
  "visit ''lib'' {} (Some lib_sub) (root_functions, root_classes) =
     Inr (root_functions @ [(''bar'', bar_record)], root_classes)"
  by code_simp

lemma distinct_map_comp: "distinct (map (f \<circ> g) xs) \<Longrightarrow> distinct (map g xs)"
  by (metis distinct_map inj_on_imageI2)

lemma class_key_pair: "class_key = (\<lambda>(m, n). or_empty m @ ''.'' @ n) \<circ> (\<lambda>c. (cr_module c, cr_name c))"
  by (rule ext) (simp add: class_key_def)


















subsection \<open>Loading\<close>

text \<open>
  C1 (fails on the code). \<open>analyze_library\<close> is meant to return a result whatever a
  submodule does when it is imported. On the library \<^verbatim>\<open>pkg\<close>, which loads and has a
  sub-package \<^verbatim>\<open>pkg.cli\<close> that calls \<^verbatim>\<open>sys.exit()\<close>, \<open>safe_import\<close> absorbs the exit, but
  \<^verbatim>\<open>pkgutil.walk_packages\<close> imports the sub-package once more to walk into it, and that
  \<^verbatim>\<open>SystemExit\<close> leaves \<open>analyze_library\<close>.
\<close>

theorem analyze_library_exit_escapes:
  "exit_importer ''pkg'' = Inr pkg_root \<and>
   safe_import exit_importer ''pkg.cli'' = Inr None \<and>
   analyze_library exit_importer ''pkg'' None = Inl SystemExit"
  by (simp add: analyze_library_def exit_importer_def pkg_root_def safe_import_def visit_def
      getmembers_def recurse_def allow_of_def SKIP_PATTERNS_def endswith_def)

text \<open>
  C2, amended. \<open>safe_import\<close> returns the module when the import succeeds, returns
  \<open>None\<close> when the import asks the process to exit (\<^verbatim>\<open>SystemExit\<close>), and returns \<open>None\<close>
  when the import raises an error that derives from \<^verbatim>\<open>Exception\<close>. An exception that
  derives from \<^verbatim>\<open>BaseException\<close> only is not caught and leaves \<open>safe_import\<close>, and it is
  the only exception that does.
\<close>

theorem safe_import_contains:
  "(imp name = Inr m \<longrightarrow> safe_import imp name = Inr (Some m)) \<and>
   (imp name = Inl SystemExit \<longrightarrow> safe_import imp name = Inr None) \<and>
   (imp name = Inl e \<longrightarrow> is_Exception e \<longrightarrow> safe_import imp name = Inr None) \<and>
   (imp name = Inl OtherBaseException \<longrightarrow>
      safe_import imp name = Inl OtherBaseException) \<and>
   (safe_import imp name = Inl e' \<longrightarrow>
      e' = OtherBaseException \<and> imp name = Inl OtherBaseException)"
  by (auto simp: safe_import_def is_Exception_iff split: sum.splits if_splits)

theorem safe_import_contains_witness:
  "safe_import lib_importer ''lib'' = Inr (Some lib_root) \<and>
   safe_import lib_importer ''lib.cli'' = Inr None \<and>
   safe_import lib_importer ''lib.broken'' = Inr None \<and>
   safe_import lib_importer ''lib.stop'' = Inl OtherBaseException \<and>
   lib_importer ''lib.stop'' = Inl OtherBaseException"
proof -
  have a: "lib_importer ''lib'' = Inr lib_root"
    and b: "lib_importer ''lib.cli'' = Inl SystemExit"
    and c: "lib_importer ''lib.broken'' = Inl OtherException" "is_Exception OtherException"
    and d: "lib_importer ''lib.stop'' = Inl OtherBaseException"
    by (simp_all add: lib_importer_def)
  from safe_import_contains [of lib_importer "''lib''" lib_root] a
  have "safe_import lib_importer ''lib'' = Inr (Some lib_root)" by blast
  moreover from safe_import_contains [of lib_importer "''lib.cli''"] b
  have "safe_import lib_importer ''lib.cli'' = Inr None" by blast
  moreover from safe_import_contains [of lib_importer "''lib.broken''" _ OtherException] c
  have "safe_import lib_importer ''lib.broken'' = Inr None" by blast
  moreover from safe_import_contains [of lib_importer "''lib.stop''"] d
  have s: "safe_import lib_importer ''lib.stop'' = Inl OtherBaseException" by blast
  moreover from safe_import_contains [of lib_importer "''lib.stop''" _ _ OtherBaseException] s
  have "lib_importer ''lib.stop'' = Inl OtherBaseException" by blast
  ultimately show ?thesis by simp
qed

text \<open>
  C2 as stated fails for an import that raises an exception deriving from
  \<^verbatim>\<open>BaseException\<close> only: \<open>safe_import\<close> raises it.
\<close>

theorem safe_import_propagates_counterexample:
  "lib_importer ''lib.stop'' = Inl OtherBaseException \<and>
   safe_import lib_importer ''lib.stop'' = Inl OtherBaseException \<and>
   safe_import lib_importer ''lib.stop'' \<noteq> Inr None"
  by (simp add: lib_importer_def safe_import_def)

subsection \<open>Structured signatures\<close>

text \<open>
  C4. When \<^verbatim>\<open>inspect.signature\<close> succeeds, \<open>parse_sig\<close> returns the parameter names in
  order, and as optional count the number of parameters that have a default value or are
  variable-positional or variable-keyword; \<open>get_function_metadata\<close> reports the two when
  the parameter list is not empty. For the parameters \<^verbatim>\<open>(a, b=1, *args)\<close> the argument
  list is \<^verbatim>\<open>["a", "b", "args"]\<close> and the optional count is 2.
\<close>

theorem parse_sig_structured:
  "(sg = Inr ps \<longrightarrow>
      parse_sig sg =
        Inr (map p_name ps,
             length (filter (\<lambda>p. p_has_default p \<or> p_kind p = VAR_POSITIONAL
                                 \<or> p_kind p = VAR_KEYWORD) ps))) \<and>
   (o_signature func = Inr ps \<longrightarrow> ps \<noteq> [] \<longrightarrow> o_getdoc func = Inr d \<longrightarrow>
      (\<exists>r. get_function_metadata func module_name = Inr r \<and>
           fr_args r = map p_name ps \<and>
           fr_optionalCount r =
             length (filter (\<lambda>p. p_has_default p \<or> p_kind p = VAR_POSITIONAL
                                 \<or> p_kind p = VAR_KEYWORD) ps))) \<and>
   parse_sig (Inr abc_params) = Inr ([''a'', ''b'', ''args''], 2)"
proof -
  have opt: "py_sum (map count_optional qs) =
      length (filter (\<lambda>p. p_has_default p \<or> p_kind p = VAR_POSITIONAL
                          \<or> p_kind p = VAR_KEYWORD) qs)" for qs
  proof -
    have "count_optional = (\<lambda>p. p_has_default p \<or> p_kind p = VAR_POSITIONAL
                          \<or> p_kind p = VAR_KEYWORD)"
      by (rule ext) (simp add: count_optional_def)
    then show ?thesis by (simp add: py_sum_filter)
  qed
  have a: "parse_sig (Inr qs) =
      Inr (map p_name qs,
           length (filter (\<lambda>p. p_has_default p \<or> p_kind p = VAR_POSITIONAL
                               \<or> p_kind p = VAR_KEYWORD) qs))" for qs
    by (simp add: parse_sig_def opt)
  have b: "\<exists>r. get_function_metadata func module_name = Inr r \<and>
           fr_args r = map p_name ps \<and>
           fr_optionalCount r =
             length (filter (\<lambda>p. p_has_default p \<or> p_kind p = VAR_POSITIONAL
                                 \<or> p_kind p = VAR_KEYWORD) ps)"
    if "o_signature func = Inr ps" "ps \<noteq> []" "o_getdoc func = Inr d"
    using that by (simp add: get_function_metadata_def sig_and_doc_def fallback_def a)
  have c: "parse_sig (Inr abc_params) = Inr ([''a'', ''b'', ''args''], 2)"
    by (simp add: a abc_params_def)
  from a b c show ?thesis by blast
qed

theorem parse_sig_structured_witness:
  "parse_sig (o_signature foo_function) = Inr ([''a'', ''b'', ''args''], 2) \<and>
   (\<exists>r. get_function_metadata foo_function ''lib'' = Inr r \<and>
        fr_args r = [''a'', ''b'', ''args''] \<and> fr_optionalCount r = 2)"
proof -
  have s: "o_signature foo_function = Inr abc_params"
    and n: "abc_params \<noteq> []"
    and d: "o_getdoc foo_function = Inr (Some ''Do foo.'')"
    by (simp_all add: foo_function_def abc_params_def)
  from parse_sig_structured [of "o_signature foo_function" abc_params foo_function
      "Some ''Do foo.''" "''lib''"]
    s n d
  have "parse_sig (o_signature foo_function) =
      Inr (map p_name abc_params,
           length (filter (\<lambda>p. p_has_default p \<or> p_kind p = VAR_POSITIONAL
                               \<or> p_kind p = VAR_KEYWORD) abc_params)) \<and>
    (\<exists>r. get_function_metadata foo_function ''lib'' = Inr r \<and>
         fr_args r = map p_name abc_params \<and>
         fr_optionalCount r =
           length (filter (\<lambda>p. p_has_default p \<or> p_kind p = VAR_POSITIONAL
                               \<or> p_kind p = VAR_KEYWORD) abc_params))"
    by blast
  moreover have "map p_name abc_params = [''a'', ''b'', ''args'']"
    by (simp add: abc_params_def)
  moreover have "length (filter (\<lambda>p. p_has_default p \<or> p_kind p = VAR_POSITIONAL
                               \<or> p_kind p = VAR_KEYWORD) abc_params) = 2"
    by (simp add: abc_params_def)
  ultimately show ?thesis by simp
qed

subsection \<open>The root library\<close>

text \<open>
  C3, amended. When the import of the root library asks the process to exit or raises
  an error that derives from \<^verbatim>\<open>Exception\<close>, \<open>analyze_library\<close> returns the error marker
  with the library's name, whatever the library holds and whatever the allow-list is;
  an exception of that import that derives from \<^verbatim>\<open>BaseException\<close> only leaves
  \<open>analyze_library\<close>. When the root loads, \<open>analyze_library\<close> does what the visit of the
  root and the walk of its sub-modules do: it raises what they raise, and returns
  otherwise the library's name with the records of the two dictionaries they built,
  those of the root first, and never the error marker.
\<close>

theorem analyze_library_root:
  "(imp lib_name = Inl e \<longrightarrow> e = SystemExit \<or> is_Exception e \<longrightarrow>
      analyze_library imp lib_name include_only =
        Inr (Error (''Failed to import '' @ lib_name))) \<and>
   (imp lib_name = Inl OtherBaseException \<longrightarrow>
      analyze_library imp lib_name include_only = Inl OtherBaseException) \<and>
   (imp lib_name = Inr root \<longrightarrow>
      analyze_library imp lib_name include_only =
        (case visit lib_name (allow_of include_only) (Some root) ([], []) of
           Inl e \<Rightarrow> Inl e
         | Inr st \<Rightarrow>
             (case recurse imp lib_name (allow_of include_only) root st of
                Inl e \<Rightarrow> Inl e
              | Inr (functions, classes) \<Rightarrow>
                  Inr (Analysis lib_name (map snd functions) (map snd classes))))) \<and>
   (imp lib_name = Inr root \<longrightarrow>
      analyze_library imp lib_name include_only \<noteq> Inr (Error msg)) \<and>
   (imp lib_name = Inr root \<longrightarrow>
    visit lib_name (allow_of include_only) (Some root) ([], []) = Inr (froot, croot) \<longrightarrow>
    analyze_library imp lib_name include_only = Inr r \<longrightarrow>
      (\<exists>fs cs. r = Analysis lib_name (map snd froot @ fs) (map snd croot @ cs)))"
proof -
  have a: "analyze_library imp lib_name include_only =
      Inr (Error (''Failed to import '' @ lib_name))"
    if "imp lib_name = Inl e" "e = SystemExit \<or> is_Exception e"
    using that by (auto simp: analyze_library_def safe_import_def)
  have b: "analyze_library imp lib_name include_only = Inl OtherBaseException"
    if "imp lib_name = Inl OtherBaseException"
    using that by (simp add: analyze_library_def safe_import_def)
  have c: "analyze_library imp lib_name include_only =
        (case visit lib_name (allow_of include_only) (Some root) ([], []) of
           Inl e \<Rightarrow> Inl e
         | Inr st \<Rightarrow>
             (case recurse imp lib_name (allow_of include_only) root st of
                Inl e \<Rightarrow> Inl e
              | Inr (functions, classes) \<Rightarrow>
                  Inr (Analysis lib_name (map snd functions) (map snd classes))))"
    if "imp lib_name = Inr root"
    using that by (simp add: analyze_library_def safe_import_def)
  have d: "analyze_library imp lib_name include_only \<noteq> Inr (Error msg)"
    if "imp lib_name = Inr root"
    by (simp add: c [OF that] split: sum.splits prod.splits)
  have f: "\<exists>fs cs. r = Analysis lib_name (map snd froot @ fs) (map snd croot @ cs)"
    if r: "imp lib_name = Inr root"
      and v: "visit lib_name (allow_of include_only) (Some root) ([], []) = Inr (froot, croot)"
      and an: "analyze_library imp lib_name include_only = Inr r"
  proof -
    from an c [OF r] v obtain fd cd where
      w: "recurse imp lib_name (allow_of include_only) root (froot, croot) = Inr (fd, cd)"
      and res: "r = Analysis lib_name (map snd fd) (map snd cd)"
      by (auto split: sum.splits prod.splits)
    from recurse_step [OF w] obtain fs cs where "fd = froot @ fs" "cd = croot @ cs"
      by (auto simp: prefix_def)
    with res show ?thesis by simp
  qed
  from a b c d f show ?thesis by blast
qed

theorem analyze_library_root_witness:
  "analyze_library lib_importer ''lib.broken'' None =
     Inr (Error ''Failed to import lib.broken'') \<and>
   analyze_library lib_importer ''lib.cli'' (Some [''foo'']) =
     Inr (Error ''Failed to import lib.cli'') \<and>
   analyze_library lib_importer ''lib.stop'' None = Inl OtherBaseException \<and>
   analyze_library lib_importer ''lib'' None =
     Inr (Analysis ''lib'' [widget_function_record, foo_record, bar_record] [widget_record]) \<and>
   analyze_library lib_importer ''lib'' None \<noteq> Inr (Error ''Failed to import lib'') \<and>
   prefix (map snd root_functions) [widget_function_record, foo_record, bar_record]"
proof -
  have a: "lib_importer ''lib.broken'' = Inl OtherException"
      "OtherException = SystemExit \<or> is_Exception OtherException"
    and b: "lib_importer ''lib.cli'' = Inl SystemExit"
      "SystemExit = SystemExit \<or> is_Exception SystemExit"
    and c: "lib_importer ''lib.stop'' = Inl OtherBaseException"
    and r: "lib_importer ''lib'' = Inr lib_root"
    by (simp_all add: lib_importer_def)
  have v: "visit ''lib'' (allow_of None) (Some lib_root) ([], []) =
      Inr (root_functions, root_classes)"
    by code_simp
  have w: "recurse lib_importer ''lib'' (allow_of None) lib_root (root_functions, root_classes) =
      Inr (root_functions @ [(''bar'', bar_record)], root_classes)"
    by code_simp
  from analyze_library_root [of lib_importer "''lib.broken''" OtherException None] a
  have "analyze_library lib_importer ''lib.broken'' None =
      Inr (Error (''Failed to import '' @ ''lib.broken''))"
    by blast
  moreover
  from analyze_library_root [of lib_importer "''lib.cli''" SystemExit "Some [''foo'']"] b
  have "analyze_library lib_importer ''lib.cli'' (Some [''foo'']) =
      Inr (Error (''Failed to import '' @ ''lib.cli''))"
    by blast
  moreover
  from analyze_library_root [of lib_importer "''lib.stop''" _ None] c
  have "analyze_library lib_importer ''lib.stop'' None = Inl OtherBaseException"
    by blast
  moreover
  from analyze_library_root [of lib_importer "''lib''" _ None lib_root] r
  have "analyze_library lib_importer ''lib'' None =
      (case visit ''lib'' (allow_of None) (Some lib_root) ([], []) of
         Inl e \<Rightarrow> Inl e
       | Inr st \<Rightarrow>
           (case recurse lib_importer ''lib'' (allow_of None) lib_root st of
              Inl e \<Rightarrow> Inl e
            | Inr (functions, classes) \<Rightarrow>
                Inr (Analysis ''lib'' (map snd functions) (map snd classes))))"
    by blast
  then have res: "analyze_library lib_importer ''lib'' None =
      Inr (Analysis ''lib'' [widget_function_record, foo_record, bar_record] [widget_record])"
    by (simp only: v w sum.case prod.case) (simp add: root_functions_def root_classes_def)
  moreover
  from analyze_library_root [of lib_importer "''lib''" _ None lib_root
      "''Failed to import lib''"] r
  have "analyze_library lib_importer ''lib'' None \<noteq> Inr (Error ''Failed to import lib'')"
    by blast
  moreover
  from analyze_library_root [where imp = lib_importer and lib_name = "''lib''"
      and include_only = None and root = lib_root and froot = root_functions
      and croot = root_classes
      and r = "Analysis ''lib'' [widget_function_record, foo_record, bar_record] [widget_record]"]
    r v res
  have "\<exists>fs cs. Analysis ''lib'' [widget_function_record, foo_record, bar_record] [widget_record] =
      Analysis ''lib'' (map snd root_functions @ fs) (map snd root_classes @ cs)"
    by blast
  then have "prefix (map snd root_functions) [widget_function_record, foo_record, bar_record]"
    by (auto simp: prefix_def)
  ultimately show ?thesis by simp
qed

text \<open>
  C3 as stated fails for a root library whose import raises an exception deriving from
  \<^verbatim>\<open>BaseException\<close> only: \<open>analyze_library\<close> raises it and returns no error marker.
\<close>

theorem root_failure_counterexample:
  "lib_importer ''lib.stop'' = Inl OtherBaseException \<and>
   analyze_library lib_importer ''lib.stop'' None = Inl OtherBaseException \<and>
   analyze_library lib_importer ''lib.stop'' None \<noteq> Inr (Error ''Failed to import lib.stop'')"
  by (simp add: lib_importer_def analyze_library_def safe_import_def)

subsection \<open>The fallbacks\<close>



text \<open>
  C5. For a callable whose structured argument list is empty and that has a text
  signature, the argument list holds, for each token of \<open>remaining_tokens\<close> in order, the
  trimmed part of the token before its first equals sign, and the optional count is the
  number of these tokens that hold an equals sign. The text signature \<^verbatim>\<open>(x, y=2)\<close> gives
  the argument list \<^verbatim>\<open>["x", "y"]\<close> and the optional count 1.
\<close>

theorem text_signature_step:
  "(sig_and_doc func = Inr ([], opt, doc) \<longrightarrow> o_text_signature func = Some ts \<longrightarrow> ts \<noteq> [] \<longrightarrow>
      get_function_metadata func module_name =
        Inr \<lparr> fr_name = getattr_name func,
              fr_args = map (\<lambda>t. strip (takeWhile (\<lambda>c. c \<noteq> CHR ''='') t)) (remaining_tokens ts),
              fr_optionalCount = length (filter (\<lambda>t. CHR ''='' \<in> set t) (remaining_tokens ts)),
              fr_doc = doc, fr_module = module_name \<rparr>) \<and>
   parse_text_signature ts =
     map (\<lambda>t. strip (takeWhile (\<lambda>c. c \<noteq> CHR ''='') t)) (remaining_tokens ts) \<and>
   remaining_tokens ''(x, y=2)'' = [''x'', ''y=2''] \<and>
   parse_text_signature ''(x, y=2)'' = [''x'', ''y'']"
proof -
  have names: "parse_text_signature s =
      map (\<lambda>t. strip (takeWhile (\<lambda>c. c \<noteq> CHR ''='') t)) (remaining_tokens s)" for s
  proof (cases "s = []")
    case True
    have "remaining_tokens [] = []"
      by (simp add: remaining_tokens_def strip_def strip_parens_def strip_chars_def)
    with True show ?thesis by (simp add: parse_text_signature_def)
  next
    case False
    then show ?thesis
      by (simp add: parse_text_signature_def parse_text_loop_eq remaining_tokens_def
          first_piece_takeWhile)
  qed
  have a: "get_function_metadata func module_name =
        Inr \<lparr> fr_name = getattr_name func,
              fr_args = map (\<lambda>t. strip (takeWhile (\<lambda>c. c \<noteq> CHR ''='') t)) (remaining_tokens ts),
              fr_optionalCount = length (filter (\<lambda>t. CHR ''='' \<in> set t) (remaining_tokens ts)),
              fr_doc = doc, fr_module = module_name \<rparr>"
    if "sig_and_doc func = Inr ([], opt, doc)" "o_text_signature func = Some ts" "ts \<noteq> []"
  proof -
    from that obtain t ts' where ts: "ts = t # ts'" by (cases ts) auto
    have "fallback func ([], opt, doc) =
        (parse_text_signature ts,
         length (filter (\<lambda>p. CHR ''='' \<in> set p) (split CHR '','' (strip_parens ts))))"
      using that(2) by (simp add: fallback_def ts py_sum_filter)
    with that(1) show ?thesis
      by (simp add: get_function_metadata_def names eq_pieces_text_signature)
  qed
  have b: "remaining_tokens ''(x, y=2)'' = [''x'', ''y=2'']"
    by code_simp
  have c: "parse_text_signature ''(x, y=2)'' = [''x'', ''y'']"
    by code_simp
  from a names b c show ?thesis by blast
qed

theorem text_signature_step_witness:
  "sig_and_doc sub_foo = Inr ([], 0, []) \<and>
   get_function_metadata sub_foo ''lib.sub'' =
     Inr \<lparr> fr_name = ''foo'', fr_args = [''x'', ''y''], fr_optionalCount = 1,
           fr_doc = [], fr_module = ''lib.sub'' \<rparr>"
proof -
  have s: "sig_and_doc sub_foo = Inr ([], 0, [])"
    by (simp add: sig_and_doc_def parse_sig_def sub_foo_def)
  have t: "o_text_signature sub_foo = Some ''(x, y=2)''" and n: "''(x, y=2)'' \<noteq> []"
    by (simp_all add: sub_foo_def)
  have g: "getattr_name sub_foo = ''foo''"
    by (simp add: getattr_name_def sub_foo_def)
  have r: "remaining_tokens ''(x, y=2)'' = [''x'', ''y=2'']"
    by code_simp
  have m: "map (\<lambda>t. strip (takeWhile (\<lambda>c. c \<noteq> CHR ''='') t)) [''x'', ''y=2''] =
      [''x'', ''y'']"
    by code_simp
  have k: "length (filter (\<lambda>t. CHR ''='' \<in> set t) [''x'', ''y=2'']) = 1"
    by code_simp
  from text_signature_step [of sub_foo 0 "[]" "''(x, y=2)''" "''lib.sub''"] s t n
  have "get_function_metadata sub_foo ''lib.sub'' =
      Inr \<lparr> fr_name = getattr_name sub_foo,
            fr_args = map (\<lambda>t. strip (takeWhile (\<lambda>c. c \<noteq> CHR ''='') t))
                        (remaining_tokens ''(x, y=2)''),
            fr_optionalCount =
              length (filter (\<lambda>t. CHR ''='' \<in> set t) (remaining_tokens ''(x, y=2)'')),
            fr_doc = [], fr_module = ''lib.sub'' \<rparr>"
    by blast
  also have "\<dots> =
      Inr \<lparr> fr_name = ''foo'', fr_args = [''x'', ''y''], fr_optionalCount = 1,
            fr_doc = [], fr_module = ''lib.sub'' \<rparr>"
    by (simp only: r m k g)
  finally show ?thesis using s by simp
qed

text \<open>
  C6 (fails on the code). The docstring step is meant to derive the names as the
  text-signature step does. \<open>parse_text_signature\<close> skips an empty token, the docstring
  step does not: the documentation \<^verbatim>\<open>"foo()"\<close> gives one argument with the empty name,
  where the text signature \<^verbatim>\<open>"()"\<close> gives none. The documentation
  \<^verbatim>\<open>"bar(p, q=3)\n..."\<close> gives \<^verbatim>\<open>["p", "q"]\<close> and the optional count 1.
\<close>

theorem docstring_step_keeps_empty_token:
  "get_function_metadata doc_only_function ''lib'' =
     Inr \<lparr> fr_name = ''foo'', fr_args = [[]], fr_optionalCount = 0,
           fr_doc = ''foo()'', fr_module = ''lib'' \<rparr> \<and>
   parse_text_signature ''()'' = [] \<and>
   get_function_metadata sub_bar ''lib.sub'' =
     Inr \<lparr> fr_name = ''bar'', fr_args = [''p'', ''q''], fr_optionalCount = 1,
           fr_doc = ''bar(p, q=3)'' @ [CHR 0x0A] @ ''Do bar.'', fr_module = ''lib.sub'' \<rparr>"
  by code_simp

subsection \<open>De-duplication\<close>

text \<open>
  C7. In a result of \<open>analyze_library\<close> no two function records have the same name and
  no two class records the same module and name. A visit only appends to the two
  dictionaries, so that a record stays where it was first put, and keeps their
  invariants, under which the records of a dictionary differ in name, or in module and
  name. An object whose name, or whose key, is in the dictionary already changes
  nothing. The records of the root module come first in the result.
\<close>

theorem no_duplicate_records:
  "(analyze_library imp lib_name include_only = Inr (Analysis l fs cs) \<longrightarrow>
      distinct (map fr_name fs) \<and> distinct (map (\<lambda>c. (cr_module c, cr_name c)) cs)) \<and>
   (visit lib_name allow md (fd, cd) = Inr (fd', cd') \<longrightarrow>
      prefix fd fd' \<and> prefix cd cd' \<and>
      (functions_inv fd \<longrightarrow> functions_inv fd') \<and> (classes_inv cd \<longrightarrow> classes_inv cd')) \<and>
   (functions_inv fd \<longrightarrow> distinct (map (\<lambda>(k, r). fr_name r) fd)) \<and>
   (classes_inv cd \<longrightarrow> distinct (map (\<lambda>(k, c). (cr_module c, cr_name c)) cd)) \<and>
   (has_key (getattr_name obj) fd \<longrightarrow>
      visit_functions lib_name allow ((n, obj) # rest) fd =
      visit_functions lib_name allow rest fd) \<and>
   (attr_name obj = Inr cn \<longrightarrow> has_key (or_empty (o_module obj) @ ''.'' @ cn) cd \<longrightarrow>
      visit_classes lib_name allow ((n, obj) # rest) cd =
      visit_classes lib_name allow rest cd) \<and>
   (imp lib_name = Inr root \<longrightarrow>
    visit lib_name (allow_of include_only) (Some root) ([], []) = Inr (fd0, cd0) \<longrightarrow>
    analyze_library imp lib_name include_only = Inr (Analysis l fs cs) \<longrightarrow>
      prefix (map snd fd0) fs \<and> prefix (map snd cd0) cs)"
proof -
  have a: "distinct (map fr_name fs) \<and> distinct (map (\<lambda>c. (cr_module c, cr_name c)) cs)"
    if "analyze_library imp lib_name include_only = Inr (Analysis l fs cs)"
  proof -
    from that have "distinct (map fr_name fs)" "distinct (map class_key cs)"
      using analyze_library_inv by blast+
    then show ?thesis
      using distinct_map_comp [of "\<lambda>(m, n). or_empty m @ ''.'' @ n"
          "\<lambda>c. (cr_module c, cr_name c)" cs]
      by (simp add: class_key_pair)
  qed
  have b: "prefix fd fd' \<and> prefix cd cd' \<and>
      (functions_inv fd \<longrightarrow> functions_inv fd') \<and> (classes_inv cd \<longrightarrow> classes_inv cd')"
    if "visit lib_name allow md (fd, cd) = Inr (fd', cd')"
    using that by (rule visit_step)
  have c: "distinct (map (\<lambda>(k, r). fr_name r) fd)" if "functions_inv fd"
  proof -
    have "map (\<lambda>(k, r). fr_name r) fd = map fr_name (map snd fd)"
      by (induction fd) auto
    with that show ?thesis
      by (simp only: functions_inv_names) (simp add: functions_inv_def)
  qed
  have d: "distinct (map (\<lambda>(k, c). (cr_module c, cr_name c)) cd)" if "classes_inv cd"
  proof -
    from that have "distinct (map class_key (map snd cd))"
      by (simp only: classes_inv_keys) (simp add: classes_inv_def)
    then have "distinct (map (\<lambda>c. (cr_module c, cr_name c)) (map snd cd))"
      using distinct_map_comp [of "\<lambda>(m, n). or_empty m @ ''.'' @ n"
          "\<lambda>c. (cr_module c, cr_name c)" "map snd cd"]
      by (simp add: class_key_pair)
    moreover have "map (\<lambda>(k, c). (cr_module c, cr_name c)) cd =
        map (\<lambda>c. (cr_module c, cr_name c)) (map snd cd)"
      by (induction cd) auto
    ultimately show ?thesis by (simp only:)
  qed
  have e: "visit_functions lib_name allow ((n, obj) # rest) fd =
      visit_functions lib_name allow rest fd"
    if "has_key (getattr_name obj) fd"
    using that by (simp add: Let_def)
  have f: "visit_classes lib_name allow ((n, obj) # rest) cd =
      visit_classes lib_name allow rest cd"
    if "attr_name obj = Inr cn" "has_key (or_empty (o_module obj) @ ''.'' @ cn) cd"
    using that by (simp add: Let_def)
  have g: "prefix (map snd fd0) fs \<and> prefix (map snd cd0) cs"
    if "imp lib_name = Inr root"
      "visit lib_name (allow_of include_only) (Some root) ([], []) = Inr (fd0, cd0)"
      "analyze_library imp lib_name include_only = Inr (Analysis l fs cs)"
  proof -
    from that(3) obtain root' fd1 cd1 fd2 cd2 where
      r: "imp lib_name = Inr root'"
      and v: "visit lib_name (allow_of include_only) (Some root') ([], []) = Inr (fd1, cd1)"
      and w: "recurse imp lib_name (allow_of include_only) root' (fd1, cd1) = Inr (fd2, cd2)"
      and fs: "fs = map snd fd2" and cs: "cs = map snd cd2"
      by (rule analyze_library_states)
    from r v that(1,2) have "fd1 = fd0" "cd1 = cd0" by simp_all
    with recurse_step [OF w] show ?thesis
      by (simp add: fs cs map_mono_prefix)
  qed
  from a b c d e f g show ?thesis by blast
qed

theorem no_duplicate_records_witness:
  "analyze_library lib_importer ''lib'' None =
     Inr (Analysis ''lib'' [widget_function_record, foo_record, bar_record] [widget_record]) \<and>
   distinct (map fr_name [widget_function_record, foo_record, bar_record]) \<and>
   distinct (map (\<lambda>c. (cr_module c, cr_name c)) [widget_record]) \<and>
   visit ''lib'' {} (Some lib_sub) (root_functions, root_classes) =
     Inr (root_functions @ [(''bar'', bar_record)], root_classes) \<and>
   functions_inv (root_functions @ [(''bar'', bar_record)]) \<and>
   distinct (map (\<lambda>(k, r). fr_name r) (root_functions @ [(''bar'', bar_record)])) \<and>
   distinct (map (\<lambda>(k, c). (cr_module c, cr_name c)) root_classes) \<and>
   visit_functions ''lib'' {} [(''foo'', sub_foo)] root_functions = Inr root_functions \<and>
   visit_classes ''lib'' {} [(''Widget'', widget_class)] root_classes = Inr root_classes \<and>
   prefix (map snd root_functions) [widget_function_record, foo_record, bar_record]"
proof -
  note inst = no_duplicate_records [where imp = lib_importer and lib_name = "''lib''"
      and include_only = None and l = "''lib''"
      and fs = "[widget_function_record, foo_record, bar_record]" and cs = "[widget_record]"
      and allow = "{}" and md = "Some lib_sub" and fd = root_functions and cd = root_classes
      and fd' = "root_functions @ [(''bar'', bar_record)]" and cd' = root_classes
      and obj = sub_foo and n = "''foo''" and rest = "[]" and root = lib_root
      and fd0 = root_functions and cd0 = root_classes]
  have fi: "functions_inv root_functions" and ci: "classes_inv root_classes"
    by code_simp+
  have k: "has_key (getattr_name sub_foo) root_functions"
    by code_simp
  have r: "lib_importer ''lib'' = Inr lib_root"
    by (simp add: lib_importer_def)
  have v: "visit ''lib'' (allow_of None) (Some lib_root) ([], []) =
      Inr (root_functions, root_classes)"
    using lib_root_visit by (simp add: allow_of_def)
  from inst lib_analysis lib_sub_visit fi ci k r v
  have "distinct (map fr_name [widget_function_record, foo_record, bar_record])"
    "distinct (map (\<lambda>c. (cr_module c, cr_name c)) [widget_record])"
    "functions_inv (root_functions @ [(''bar'', bar_record)])"
    "distinct (map (\<lambda>(k, r). fr_name r) root_functions)"
    "distinct (map (\<lambda>(k, c). (cr_module c, cr_name c)) root_classes)"
    "visit_functions ''lib'' {} [(''foo'', sub_foo)] root_functions =
       visit_functions ''lib'' {} [] root_functions"
    "prefix (map snd root_functions) [widget_function_record, foo_record, bar_record]"
    by blast+
  moreover
  have wk: "attr_name widget_class = Inr ''Widget''"
    "has_key (or_empty (o_module widget_class) @ ''.'' @ ''Widget'') root_classes"
    by code_simp+
  from no_duplicate_records [where obj = widget_class and cn = "''Widget''"
      and cd = root_classes and lib_name = "''lib''" and allow = "{}" and n = "''Widget''"
      and rest = "[]"] wk
  have "visit_classes ''lib'' {} [(''Widget'', widget_class)] root_classes =
      visit_classes ''lib'' {} [] root_classes"
    by blast
  moreover
  have "distinct (map (\<lambda>(k, r). fr_name r) (root_functions @ [(''bar'', bar_record)]))"
    by code_simp
  ultimately show ?thesis
    using lib_analysis lib_sub_visit by simp
qed

subsection \<open>The allow-list\<close>




subsection \<open>Classes among the functions\<close>




end
